theory Spec2Isabelle
  imports Complex_Main
begin

section \<open>Values, tasks and errors\<close>

text \<open>
  Exceptions of the Python source are values of \<open>py_error\<close>; a call that can raise returns
  \<open>py_error + 'a\<close> with \<open>Inl\<close> for the exception. \<open>Full\<close> is \<open>queue.Full\<close>.
\<close>

datatype py_error = ValueError | KeyError | TypeError | Full

datatype pyval = PStr string | PBool bool | PInt int | PFloat rat | PNone

text \<open>
  A payload is a Python dict built by a literal: an association list with distinct keys, in
  insertion order. An attachment table maps a media type to (file name, bytes, mime type).
  A queue item is the 3-tuple \<open>(endpoint, payload, files)\<close>.
\<close>

type_synonym payload = "(string \<times> pyval) list"

type_synonym files = "(string \<times> string \<times> string \<times> string) list"

type_synonym task = "string \<times> payload \<times> files option"

text \<open>
  \<open>failed_messages\<close> is a Python list of tuples. The dispatch step appends the 2-tuple
  \<open>(endpoint, payload)\<close> (the value of \<open>future_to_task\<close>), the retry step appends 3-tuples to
  \<open>remaining_failed\<close>, so an entry records its arity.
\<close>

datatype ledger_entry =
  Tuple2 string payload
| Tuple3 string payload "files option"

datatype log_event =
  Warn_empty_message
| Info_skipping_duplicate
| Info_message_queued
| Warn_queue_full
| Error_queuing
| Info_location_queued
| Warn_location_dropped
| Error_queuing_location
| Info_retrying_failed
| Error_processing_request
| Error_retry_failed
| Error_processing_messages py_error

section \<open>Configuration\<close>

text \<open>
  The constructor's parameters. \<open>_constants.py\<close> is not among the source files: its strings
  are parameters of the model (\<open>title_prefix\<close> ... \<open>timestamp_suffix\<close>), and so is the
  library digest \<open>hashlib.sha256(...).hexdigest()\<close> (\<open>sha256_hexdigest\<close>). Text is held as its
  UTF-8 bytes, so \<open>str.encode()\<close> is the identity.
\<close>

record config =
  chat_id :: string
  max_retries :: int
  retry_delay :: int
  queue_size :: int
  deduplication_ttl :: int
  batch_interval :: int
  title_prefix :: string
  title :: string
  title_suffix :: string
  timestamp_prefix :: string
  timestamp_suffix :: string
  sha256_hexdigest :: "string \<Rightarrow> string"

section \<open>The deduplication cache\<close>

text \<open>
  Modelled from the spec: the type \<open>TTLCache\<close> of the \<open>cachetools\<close> library, which
  \<open>recent_messages\<close> is an instance of (\<open>TTLCache(maxsize=100, ttl=deduplication_ttl)\<close>), is
  not among the source files. The spec: a DedupEntry is a fingerprint with its insertion
  time; it expires after the TTL; the cache holds at most a fixed capacity and evicts the
  oldest-inserted entries first when full; re-insertion refreshes the TTL clock; an entry
  older than the TTL is never reported as present. Entries are kept oldest first. An entry
  is present at time \<open>now\<close> exactly when \<open>now < insertion time + ttl\<close>. Clock readings are
  exact rationals (seconds of the monotonic clock).
\<close>

record ttl_cache =
  cache_ttl :: int
  entries :: "(string \<times> rat) list"

definition dedup_maxsize :: nat where
  "dedup_maxsize = 100"

definition unexpired :: "int \<Rightarrow> rat \<Rightarrow> (string \<times> rat) \<Rightarrow> bool" where
  "unexpired life now e = (now < snd e + of_int life)"

definition cache_contains :: "ttl_cache \<Rightarrow> rat \<Rightarrow> string \<Rightarrow> bool" where
  "cache_contains c now k =
     (case map_of (entries c) k of
        None \<Rightarrow> False
      | Some t \<Rightarrow> unexpired (cache_ttl c) now (k, t))"

definition cache_expire :: "ttl_cache \<Rightarrow> rat \<Rightarrow> ttl_cache" where
  "cache_expire c now = c\<lparr>entries := filter (unexpired (cache_ttl c) now) (entries c)\<rparr>"

fun evict :: "nat \<Rightarrow> 'a list \<Rightarrow> 'a list" where
  "evict cap [] = []"
| "evict cap (x # xs) = (if cap < Suc (length (x # xs)) then evict cap xs else x # xs)"

definition cache_setitem :: "ttl_cache \<Rightarrow> rat \<Rightarrow> string \<Rightarrow> ttl_cache" where
  "cache_setitem c now k =
     (let live = entries (cache_expire c now);
          kept = (if k \<in> set (map fst live) then live else evict dedup_maxsize live)
      in c\<lparr>entries := filter (\<lambda>e. fst e \<noteq> k) kept @ [(k, now)]\<rparr>)"

section \<open>The instance state\<close>

text \<open>
  The mutable attributes of a \<open>DeepWhisperer\<close>. \<open>message_queue\<close> is the FIFO queue, oldest
  item first. Two fields record effects: \<open>requests\<close> is the list of calls of \<open>_send_request\<close>
  in order, \<open>log\<close> the list of \<open>LOGGER\<close> calls of \<open>send_message\<close>, \<open>_process_queue\<close> and
  \<open>_retry_failed_messages\<close>.
\<close>

record state =
  recent_messages :: ttl_cache
  message_queue :: "task list"
  failed_messages :: "ledger_entry list"
  stop_event :: bool
  requests :: "task list"
  log :: "log_event list"

section \<open>The request sender\<close>

text \<open>
  One pass of the \<open>try\<close> body of \<open>_send_request\<close> posts the request and calls
  \<open>raise_for_status\<close>: it returns the response (its status code), raises
  \<open>httpx.HTTPStatusError\<close> (a 4xx/5xx-class response), or raises some other exception (a
  transport error, a failing \<open>seek\<close>). What the network does at each attempt, and the value
  \<open>random.uniform(0.5, 1.5)\<close> returns there, are inputs of the model.
\<close>

datatype attempt_outcome =
  Returned nat
| Raised_HTTPStatusError
| Raised_Exception

record wire =
  outcome_at :: "nat \<Rightarrow> attempt_outcome"
  jitter_at :: "nat \<Rightarrow> rat"

text \<open>
  The result of a run: the returned value (\<open>Inr None\<close> is Python's \<open>None\<close>, the failure
  result) or the exception that left \<open>_send_request\<close>; the number of attempts made; the
  arguments of \<open>time.sleep\<close> in order.
\<close>

record run =
  result :: "py_error + nat option"
  tries :: nat
  sleeps :: "rat list"




definition sleep_time :: "config \<Rightarrow> wire \<Rightarrow> nat \<Rightarrow> rat" where
  "sleep_time cfg w attempt = of_int (retry_delay cfg) * 2 ^ attempt * jitter_at w attempt"

text \<open>
  The \<open>for attempt in range(self.max_retries)\<close> loop, over the attempts still to make. A loop
  that runs out falls off the end of the function, which returns \<open>None\<close>. \<open>time.sleep\<close> raises
  \<open>ValueError\<close> on a negative argument, inside the \<open>except\<close> handler, where no handler catches
  it.
\<close>

fun attempts :: "config \<Rightarrow> wire \<Rightarrow> nat list \<Rightarrow> run" where
  "attempts cfg w [] = \<lparr>result = Inr None, tries = 0, sleeps = []\<rparr>"
| "attempts cfg w (attempt # rest) =
     (case outcome_at w attempt of
        Returned response \<Rightarrow> \<lparr>result = Inr (Some response), tries = 1, sleeps = []\<rparr>
      | Raised_HTTPStatusError \<Rightarrow>
          (if int attempt < max_retries cfg - 1 then
             (if sleep_time cfg w attempt < 0 then
                \<lparr>result = Inl ValueError, tries = 1, sleeps = []\<rparr>
              else
                (let r = attempts cfg w rest
                 in r\<lparr>tries := Suc (tries r), sleeps := sleep_time cfg w attempt # sleeps r\<rparr>))
           else \<lparr>result = Inr None, tries = 1, sleeps = []\<rparr>)
      | Raised_Exception \<Rightarrow> \<lparr>result = Inr None, tries = 1, sleeps = []\<rparr>)"

definition send_request :: "config \<Rightarrow> wire \<Rightarrow> task \<Rightarrow> run" where
  "send_request cfg w t = attempts cfg w [0..<nat (max_retries cfg)]"

section \<open>The failure ledger\<close>

text \<open>
  \<open>_retry_failed_messages\<close>. The loop header \<open>for endpoint, payload, files in
  self.failed_messages\<close> unpacks each entry into three names, outside the \<open>try\<close>: a 2-tuple
  raises \<open>ValueError\<close> there and the method is left before \<open>self.failed_messages\<close> is assigned.
  Inside the \<open>try\<close>, a falsy response or an exception keeps the entry. The \<open>n\<close>-th entry is
  sent over the \<open>n\<close>-th wire of \<open>ws\<close>. The loop returns the state with the requests made
  so far and \<open>remaining_failed\<close>.
\<close>

fun retry_loop ::
  "config \<Rightarrow> (nat \<Rightarrow> wire) \<Rightarrow> nat \<Rightarrow> ledger_entry list \<Rightarrow> state \<Rightarrow> ledger_entry list
    \<Rightarrow> py_error + (state \<times> ledger_entry list)" where
  "retry_loop cfg ws n [] s remaining_failed = Inr (s, remaining_failed)"
| "retry_loop cfg ws n (Tuple2 endpoint payload # rest) s remaining_failed = Inl ValueError"
| "retry_loop cfg ws n (Tuple3 endpoint payload fs # rest) s remaining_failed =
     (let s' = s\<lparr>requests := requests s @ [(endpoint, payload, fs)]\<rparr>
      in case result (send_request cfg (ws n) (endpoint, payload, fs)) of
           Inr (Some response) \<Rightarrow> retry_loop cfg ws (Suc n) rest s' remaining_failed
         | Inr None \<Rightarrow>
             retry_loop cfg ws (Suc n) rest s' (remaining_failed @ [Tuple3 endpoint payload fs])
         | Inl e \<Rightarrow>
             retry_loop cfg ws (Suc n) rest (s'\<lparr>log := log s' @ [Error_retry_failed]\<rparr>)
               (remaining_failed @ [Tuple3 endpoint payload fs]))"

text \<open>
  The method returns the new state, or the exception together with the state it leaves
  behind (the ledger as it was, since the assignment was not reached).
\<close>

definition retry_failed_messages ::
  "config \<Rightarrow> (nat \<Rightarrow> wire) \<Rightarrow> state \<Rightarrow> (py_error \<times> state) + state" where
  "retry_failed_messages cfg ws s =
     (if failed_messages s = [] then Inr s
      else
        (let s1 = s\<lparr>log := log s @ [Info_retrying_failed]\<rparr>
         in case retry_loop cfg ws 0 (failed_messages s1) s1 [] of
              Inl e \<Rightarrow> Inl (e, s1)
            | Inr (s2, remaining_failed) \<Rightarrow> Inr (s2\<lparr>failed_messages := remaining_failed\<rparr>)))"

text \<open>Replaying the retry step \<open>k\<close> times, stopping at the first exception.\<close>

fun replay_retry :: "nat \<Rightarrow> config \<Rightarrow> (nat \<Rightarrow> wire) \<Rightarrow> state \<Rightarrow> (py_error \<times> state) + state" where
  "replay_retry 0 cfg ws s = Inr s"
| "replay_retry (Suc k) cfg ws s =
     (case retry_failed_messages cfg ws s of
        Inl e \<Rightarrow> Inl e
      | Inr s' \<Rightarrow> replay_retry k cfg ws s')"

section \<open>Framing of outgoing text\<close>

text \<open>
  \<open>time.gmtime()\<close> reads the wall clock; its result is an input of the model. The format
  \<open>'%Y-%m-%d | %H:%M:%S'\<close> prints the year in decimal and the other fields as two digits.
\<close>

record struct_time =
  tm_year :: nat
  tm_mon :: nat
  tm_mday :: nat
  tm_hour :: nat
  tm_min :: nat
  tm_sec :: nat

definition digit :: "nat \<Rightarrow> char" where
  "digit n = ''0123456789'' ! (n mod 10)"

definition two_digits :: "nat \<Rightarrow> string" where
  "two_digits n = [digit (n div 10), digit n]"

fun decimal :: "nat \<Rightarrow> string" where
  "decimal n = (if n < 10 then [digit n] else decimal (n div 10) @ [digit n])"

definition strftime :: "struct_time \<Rightarrow> string" where
  "strftime t =
     decimal (tm_year t) @ ''-'' @ two_digits (tm_mon t) @ ''-'' @ two_digits (tm_mday t) @
     '' | '' @ two_digits (tm_hour t) @ '':'' @ two_digits (tm_min t) @ '':'' @
     two_digits (tm_sec t)"

definition get_formatted_time :: "config \<Rightarrow> struct_time \<Rightarrow> string" where
  "get_formatted_time cfg t =
     timestamp_prefix cfg @ '' '' @ strftime t @ '' | GMT '' @ timestamp_suffix cfg"

definition get_formatted_title :: "config \<Rightarrow> string" where
  "get_formatted_title cfg = title_prefix cfg @ '' '' @ title cfg @ '' '' @ title_suffix cfg"

definition newline :: string where
  "newline = [CHR 0x0A]"

definition wrapped_message :: "config \<Rightarrow> struct_time \<Rightarrow> string \<Rightarrow> string" where
  "wrapped_message cfg t message =
     get_formatted_title cfg @ newline @ message @ newline @ get_formatted_time cfg t"

text \<open>
  \<open>str.strip()\<close> removes leading and trailing whitespace; on the bytes of ASCII text that is
  the characters 9 to 13, 28 to 31 and the blank.
\<close>

definition is_space :: "char \<Rightarrow> bool" where
  "is_space c =
     (c \<in> set [CHR 0x09, CHR 0x0A, CHR 0x0B, CHR 0x0C, CHR 0x0D,
                CHR 0x1C, CHR 0x1D, CHR 0x1E, CHR 0x1F, CHR 0x20])"

definition strip :: "string \<Rightarrow> string" where
  "strip s = rev (dropWhile is_space (rev (dropWhile is_space s)))"

section \<open>Producers\<close>

text \<open>
  \<open>Queue.put_nowait\<close>: a queue whose \<open>maxsize\<close> is positive raises \<open>Full\<close> when it holds that
  many items; a \<open>maxsize\<close> of zero or less means an unbounded queue.
\<close>

definition put_nowait :: "config \<Rightarrow> task list \<Rightarrow> task \<Rightarrow> py_error + task list" where
  "put_nowait cfg q item =
     (if 0 < queue_size cfg \<and> queue_size cfg \<le> int (length q) then Inl Full
      else Inr (q @ [item]))"

text \<open>
  The clock readings of one call of \<open>send_message\<close>: the wall clock of
  \<open>_get_formatted_time\<close>, and the cache's timer at the membership test and at the store.
\<close>

record reading =
  gmtime :: struct_time
  timer_contains :: rat
  timer_setitem :: rat

definition text_payload :: "config \<Rightarrow> string \<Rightarrow> string \<Rightarrow> payload" where
  "text_payload cfg parse_mode wrapped =
     [(''chat_id'', PStr (chat_id cfg)), (''parse_mode'', PStr parse_mode),
      (''text'', PStr wrapped)]"

text \<open>
  \<open>send_message\<close>. The result is \<open>Inl\<close> if an exception leaves the method; every
  exception of \<open>put_nowait\<close> is caught by one of the two handlers.
\<close>

definition send_message ::
  "config \<Rightarrow> reading \<Rightarrow> string \<Rightarrow> string \<Rightarrow> bool \<Rightarrow> state \<Rightarrow> py_error + state" where
  "send_message cfg clk message parse_mode allow_duplicates s =
     (if strip message = [] then Inr (s\<lparr>log := log s @ [Warn_empty_message]\<rparr>)
      else
        (let wrapped = wrapped_message cfg (gmtime clk) message;
             message_hash = sha256_hexdigest cfg wrapped
         in if \<not> allow_duplicates \<and>
               cache_contains (recent_messages s) (timer_contains clk) message_hash
            then Inr (s\<lparr>log := log s @ [Info_skipping_duplicate]\<rparr>)
            else
              (let s1 = s\<lparr>recent_messages :=
                          cache_setitem (recent_messages s) (timer_setitem clk) message_hash\<rparr>
               in case put_nowait cfg (message_queue s1)
                         (''sendMessage'', text_payload cfg parse_mode wrapped, None) of
                    Inr q \<Rightarrow> Inr (s1\<lparr>message_queue := q, log := log s1 @ [Info_message_queued]\<rparr>)
                  | Inl Full \<Rightarrow> Inr (s1\<lparr>log := log s1 @ [Warn_queue_full]\<rparr>)
                  | Inl e \<Rightarrow> Inr (s1\<lparr>log := log s1 @ [Error_queuing]\<rparr>))))"


text \<open>
  \<open>stop()\<close> sets the stop event and then sleeps until the queue is empty. Once the loop
  has returned and no producer runs, nothing changes the queue any more: the wait ends
  only if the queue is empty, and a wait that does not end has no result.
\<close>

definition set_stop_event :: "state \<Rightarrow> state" where
  "set_stop_event s = s\<lparr>stop_event := True\<rparr>"

partial_function (option) await_empty_queue :: "state \<Rightarrow> state option" where
  "await_empty_queue s = (if message_queue s = [] then Some s else await_empty_queue s)"

section \<open>The dispatch loop\<close>

text \<open>
  Collecting: the inner \<open>while\<close> loop of \<open>_process_queue\<close>, run for the number of polls that
  fit into the batch window. A poll of an empty queue raises \<open>queue.Empty\<close> and the loop
  continues. An item whose endpoint is \<open>STOP\<close> makes \<open>_process_queue\<close> return (the test
  \<open>item is None\<close> cannot hold for a tuple). \<open>payload["text"]\<close> raises \<open>KeyError\<close> when the key
  is missing. The dequeued item is gone from the queue in every case.
\<close>

datatype drained =
  Window_closed "task list" "pyval list" "task list"
| Stop_item "task list"
| Drain_raised py_error "task list"

fun collect :: "nat \<Rightarrow> task list \<Rightarrow> task list \<Rightarrow> pyval list \<Rightarrow> drained" where
  "collect 0 q batch collected_messages = Window_closed q collected_messages batch"
| "collect (Suc n) [] batch collected_messages = collect n [] batch collected_messages"
| "collect (Suc n) ((endpoint, payload, fs) # q) batch collected_messages =
     (if endpoint = ''STOP'' then Stop_item q
      else if endpoint = ''sendMessage'' then
        (case map_of payload ''text'' of
           None \<Rightarrow> Drain_raised KeyError q
         | Some text \<Rightarrow> collect n q batch (collected_messages @ [text]))
      else collect n q (batch @ [(endpoint, payload, fs)]) collected_messages)"

text \<open>\<open>sep.join(xs)\<close> on strings; it raises \<open>TypeError\<close> on an element that is not a string.\<close>

fun join :: "string \<Rightarrow> string list \<Rightarrow> string" where
  "join sep [] = []"
| "join sep [x] = x"
| "join sep (x # y # ys) = x @ sep @ join sep (y # ys)"

fun strings_of :: "pyval list \<Rightarrow> py_error + string list" where
  "strings_of [] = Inr []"
| "strings_of (PStr x # vs) =
     (case strings_of vs of Inl e \<Rightarrow> Inl e | Inr xs \<Rightarrow> Inr (x # xs))"
| "strings_of (v # vs) = Inl TypeError"

text \<open>Merging: the \<open>if collected_messages:\<close> block, with the separator of the source.\<close>

definition separator :: string where
  "separator = newline @ newline"

definition merged_task :: "config \<Rightarrow> string \<Rightarrow> task" where
  "merged_task cfg combined_message =
     (''sendMessage'', [(''chat_id'', PStr (chat_id cfg)), (''text'', PStr combined_message)],
      None)"

definition merge_collected :: "config \<Rightarrow> pyval list \<Rightarrow> task list \<Rightarrow> py_error + task list" where
  "merge_collected cfg collected_messages batch =
     (if collected_messages = [] then Inr batch
      else
        (case strings_of collected_messages of
           Inl e \<Rightarrow> Inl e
         | Inr xs \<Rightarrow> Inr (batch @ [merged_task cfg (join separator xs)])))"

text \<open>
  Dispatching: every task of the batch goes through \<open>_send_request\<close>; a falsy result or an
  exception appends \<open>(endpoint, payload)\<close> to the ledger. The source handles the results in
  completion order, which the scheduler decides; the model takes the order of the batch.
  The \<open>n\<close>-th task is sent over the \<open>n\<close>-th wire.
\<close>

fun dispatch :: "config \<Rightarrow> (nat \<Rightarrow> wire) \<Rightarrow> nat \<Rightarrow> task list \<Rightarrow> state \<Rightarrow> state" where
  "dispatch cfg ws n [] s = s"
| "dispatch cfg ws n ((endpoint, payload, fs) # batch) s =
     (let s' = s\<lparr>requests := requests s @ [(endpoint, payload, fs)]\<rparr>
      in case result (send_request cfg (ws n) (endpoint, payload, fs)) of
           Inr (Some response) \<Rightarrow> dispatch cfg ws (Suc n) batch s'
         | Inr None \<Rightarrow>
             dispatch cfg ws (Suc n) batch
               (s'\<lparr>failed_messages := failed_messages s' @ [Tuple2 endpoint payload]\<rparr>)
         | Inl e \<Rightarrow>
             dispatch cfg ws (Suc n) batch
               (s'\<lparr>failed_messages := failed_messages s' @ [Tuple2 endpoint payload],
                   log := log s' @ [Error_processing_request]\<rparr>))"

text \<open>
  What the rest of the world does to one cycle: how many polls fit into the batch window,
  the wires of the batch and of the ledger, and what the other threads do after the window
  has closed and before the loop tests \<open>stop_event\<close> again: the tasks producers put into
  the queue, and whether \<open>stop()\<close> sets the event.
\<close>

record cycle_env =
  polls :: nat
  batch_wires :: "nat \<Rightarrow> wire"
  retry_wires :: "nat \<Rightarrow> wire"
  enqueued_after :: "task list"
  stop_set_after :: bool

datatype cycle_result = Continue state | Return state

text \<open>
  One pass of the body of the outer \<open>while\<close> loop. An exception inside the \<open>try\<close> is logged
  and the loop goes on with the state the exception left. With a \<open>batch_interval\<close> of zero
  or less the window is closed before the first poll.
\<close>

definition cycle :: "config \<Rightarrow> cycle_env \<Rightarrow> state \<Rightarrow> cycle_result" where
  "cycle cfg env s =
     (case collect (if 0 < batch_interval cfg then polls env else 0) (message_queue s) [] [] of
        Stop_item q \<Rightarrow> Return (s\<lparr>message_queue := q\<rparr>)
      | Drain_raised e q \<Rightarrow>
          Continue (s\<lparr>message_queue := q, log := log s @ [Error_processing_messages e]\<rparr>)
      | Window_closed q collected_messages batch \<Rightarrow>
          (let s1 = s\<lparr>message_queue := q\<rparr>
           in case merge_collected cfg collected_messages batch of
                Inl e \<Rightarrow> Continue (s1\<lparr>log := log s1 @ [Error_processing_messages e]\<rparr>)
              | Inr batch' \<Rightarrow>
                  (case retry_failed_messages cfg (retry_wires env)
                          (dispatch cfg (batch_wires env) 0 batch' s1) of
                     Inl (e, s3) \<Rightarrow> Continue (s3\<lparr>log := log s3 @ [Error_processing_messages e]\<rparr>)
                   | Inr s3 \<Rightarrow> Continue s3)))"

text \<open>Producers running beside the loop: each task is put without blocking, or dropped.\<close>

fun enqueue_all :: "config \<Rightarrow> task list \<Rightarrow> task list \<Rightarrow> task list" where
  "enqueue_all cfg q [] = q"
| "enqueue_all cfg q (t # ts) =
     (case put_nowait cfg q t of
        Inl e \<Rightarrow> enqueue_all cfg q ts
      | Inr q' \<Rightarrow> enqueue_all cfg q' ts)"

definition other_threads :: "config \<Rightarrow> cycle_env \<Rightarrow> state \<Rightarrow> state" where
  "other_threads cfg env s =
     (let s' = s\<lparr>message_queue := enqueue_all cfg (message_queue s) (enqueued_after env)\<rparr>
      in if stop_set_after env then set_stop_event s' else s')"

text \<open>
  \<open>_process_queue\<close>: the outer loop, one environment per cycle. \<open>Exited\<close> is the return of
  the method (the loop condition failed, or a \<open>STOP\<close> item was read); \<open>Running\<close> is a loop
  that is still going when the listed cycles are over.
\<close>

datatype loop_result = Exited state | Running state

fun process_queue :: "config \<Rightarrow> cycle_env list \<Rightarrow> state \<Rightarrow> loop_result" where
  "process_queue cfg [] s = (if stop_event s then Exited s else Running s)"
| "process_queue cfg (env # envs) s =
     (if stop_event s then Exited s
      else
        (case cycle cfg env s of
           Return s' \<Rightarrow> Exited s'
         | Continue s' \<Rightarrow> process_queue cfg envs (other_threads cfg env s')))"

text \<open>The state \<open>__init__\<close> builds, before it sends its first message.\<close>

definition init_state :: "config \<Rightarrow> state" where
  "init_state cfg =
     \<lparr>recent_messages = \<lparr>cache_ttl = deduplication_ttl cfg, entries = []\<rparr>,
      message_queue = [], failed_messages = [], stop_event = False, requests = [], log = []\<rparr>"

section \<open>Words of the specification\<close>

text \<open>
  The specification's merged text: the collected texts joined by a newline.
\<close>

definition newline_joined :: "string list \<Rightarrow> string" where
  "newline_joined xs = join newline xs"


section \<open>Notions used in the statements\<close>

text \<open>
  What a batch window takes from the queue, in arrival order: the texts of the plain-text
  tasks, and the tasks of every other kind. A task is well-formed if it is a text task
  with a \<open>text\<close> field or another task that is not the \<open>STOP\<close> item.
\<close>

definition collected_texts :: "task list \<Rightarrow> pyval list" where
  "collected_texts ts =
     List.map_filter (\<lambda>t. if fst t = ''sendMessage'' then map_of (fst (snd t)) ''text'' else None) ts"

definition other_tasks :: "task list \<Rightarrow> task list" where
  "other_tasks ts = filter (\<lambda>t. fst t \<noteq> ''sendMessage'') ts"

definition well_formed :: "task \<Rightarrow> bool" where
  "well_formed t =
     (if fst t = ''sendMessage'' then map_of (fst (snd t)) ''text'' \<noteq> None
      else fst t \<noteq> ''STOP'')"

text \<open>
  The arity of a ledger entry and the task it stands for; the state a cycle or the loop
  ends in; whether a submission over a wire is accepted; and the entries of a ledger, sent
  over the wires from the \<open>n\<close>-th on, whose submission is not accepted.
\<close>

fun is_pair :: "ledger_entry \<Rightarrow> bool" where
  "is_pair (Tuple2 endpoint payload) = True"
| "is_pair (Tuple3 endpoint payload fs) = False"

fun cycle_state :: "cycle_result \<Rightarrow> state" where
  "cycle_state (Continue s) = s"
| "cycle_state (Return s) = s"

fun loop_state :: "loop_result \<Rightarrow> state" where
  "loop_state (Exited s) = s"
| "loop_state (Running s) = s"

fun task_of :: "ledger_entry \<Rightarrow> task" where
  "task_of (Tuple2 endpoint payload) = (endpoint, payload, None)"
| "task_of (Tuple3 endpoint payload fs) = (endpoint, payload, fs)"

definition accepted :: "config \<Rightarrow> wire \<Rightarrow> task \<Rightarrow> bool" where
  "accepted cfg w t =
     (case result (send_request cfg w t) of Inr (Some response) \<Rightarrow> True | _ \<Rightarrow> False)"

definition still_failing ::
  "config \<Rightarrow> (nat \<Rightarrow> wire) \<Rightarrow> nat \<Rightarrow> ledger_entry list \<Rightarrow> ledger_entry list" where
  "still_failing cfg ws n held =
     map snd (filter (\<lambda>(i, e). \<not> accepted cfg (ws i) (task_of e)) (enumerate n held))"

section \<open>Concrete instances\<close>

text \<open>
  The defaults of the constructor. The strings of \<open>_constants.py\<close> are stand-ins, and the
  identity stands for the digest: like SHA-256 is taken to, it tells any two texts apart.
\<close>

definition demo_config :: config where
  "demo_config =
     \<lparr>chat_id = ''42'', max_retries = 5, retry_delay = 3, queue_size = 100,
      deduplication_ttl = 300, batch_interval = 15,
      title_prefix = ''**'', title = ''DeepWhisperer'', title_suffix = ''**'',
      timestamp_prefix = ''['', timestamp_suffix = '']'',
      sha256_hexdigest = (\<lambda>text. text)\<rparr>"

text \<open>A wire that answers every attempt with a 4xx/5xx response, and one that accepts.\<close>

definition refusing_wire :: wire where
  "refusing_wire = \<lparr>outcome_at = (\<lambda>attempt. Raised_HTTPStatusError), jitter_at = (\<lambda>attempt. 1)\<rparr>"

definition accepting_wire :: wire where
  "accepting_wire = \<lparr>outcome_at = (\<lambda>attempt. Returned 200), jitter_at = (\<lambda>attempt. 1)\<rparr>"





text \<open>
  Two readings of the clocks one second apart, a state whose queue is at capacity, and the
  same message sent twice with duplicates disallowed.
\<close>

definition noon :: reading where
  "noon =
     \<lparr>gmtime = \<lparr>tm_year = 2025, tm_mon = 1, tm_mday = 1, tm_hour = 12, tm_min = 0, tm_sec = 0\<rparr>,
      timer_contains = 0, timer_setitem = 0\<rparr>"

definition one_second_later :: reading where
  "one_second_later =
     \<lparr>gmtime = \<lparr>tm_year = 2025, tm_mon = 1, tm_mday = 1, tm_hour = 12, tm_min = 0, tm_sec = 1\<rparr>,
      timer_contains = 1, timer_setitem = 1\<rparr>"


definition send_twice ::
  "config \<Rightarrow> reading \<Rightarrow> reading \<Rightarrow> string \<Rightarrow> state \<Rightarrow> py_error + state" where
  "send_twice cfg clk clk' message s =
     (case send_message cfg clk message ''Markdown'' False s of
        Inl e \<Rightarrow> Inl e
      | Inr s1 \<Rightarrow> send_message cfg clk' message ''Markdown'' False s1)"

text \<open>
  The task \<open>send_message\<close> puts into the queue for a message sent at noon; batch windows of
  thirty polls in which the network accepts every request, refuses the requests of the
  batch, or in which five messages arrive and \<open>stop()\<close> is called after the window has
  closed; and states with one and with three messages queued.
\<close>

definition queued_text :: "string \<Rightarrow> task" where
  "queued_text message =
     (''sendMessage'',
      text_payload demo_config ''Markdown'' (wrapped_message demo_config (gmtime noon) message),
      None)"

definition calm_window :: cycle_env where
  "calm_window =
     \<lparr>polls = 30, batch_wires = (\<lambda>n. accepting_wire), retry_wires = (\<lambda>n. accepting_wire),
      enqueued_after = [], stop_set_after = False\<rparr>"

definition stormy_window :: cycle_env where
  "stormy_window = calm_window\<lparr>batch_wires := (\<lambda>n. refusing_wire)\<rparr>"

definition busy_window :: cycle_env where
  "busy_window =
     calm_window
       \<lparr>enqueued_after :=
          [queued_text ''1'', queued_text ''2'', queued_text ''3'', queued_text ''4'',
           queued_text ''5''],
        stop_set_after := True\<rparr>"

definition one_queued :: state where
  "one_queued = (init_state demo_config)\<lparr>message_queue := [queued_text ''one'']\<rparr>"

definition three_queued :: state where
  "three_queued =
     (init_state demo_config)
       \<lparr>message_queue := [queued_text ''one'', queued_text ''two'', queued_text ''three'']\<rparr>"

section \<open>Properties of the request sender\<close>













section \<open>Properties of the failure ledger\<close>

text \<open>
  C9: running the retry step of the failure ledger on an empty ledger is a no-op: the
  state (its \<open>requests\<close> and \<open>log\<close> included) is returned as it was, so no submission is
  made, and replaying the step any number of times leaves everything unchanged.
\<close>

theorem retry_empty_ledger_noop:
  "failed_messages s = [] \<Longrightarrow>
     retry_failed_messages cfg ws s = Inr s \<and> replay_retry k cfg ws s = Inr s"
proof -
  assume e: "failed_messages s = []"
  then have one: "retry_failed_messages cfg ws s = Inr s"
    by (simp add: retry_failed_messages_def)
  have "replay_retry k cfg ws s = Inr s"
    by (induction k) (simp_all add: one)
  with one show ?thesis by simp
qed

theorem retry_empty_ledger_noop_witness:
  "failed_messages (init_state demo_config) = [] \<and>
   retry_failed_messages demo_config (\<lambda>n. refusing_wire) (init_state demo_config)
     = Inr (init_state demo_config) \<and>
   replay_retry 3 demo_config (\<lambda>n. refusing_wire) (init_state demo_config)
     = Inr (init_state demo_config)"
proof -
  have e: "failed_messages (init_state demo_config) = []"
    by (simp add: init_state_def)
  show ?thesis
    using e retry_empty_ledger_noop [OF e, of demo_config "\<lambda>n. refusing_wire" 3] by simp
qed

section \<open>Properties of the producers\<close>

lemma map_of_filter_other: "map_of (filter (\<lambda>e. fst e \<noteq> k) xs) k = None"
  by (induction xs) auto

lemma cache_ttl_setitem: "cache_ttl (cache_setitem c now k) = cache_ttl c"
  by (simp add: cache_setitem_def Let_def)

lemma cache_contains_setitem:
  "cache_contains (cache_setitem c now k) now' k = (now' < now + of_int (cache_ttl c))"
  by (simp add: cache_contains_def cache_setitem_def Let_def map_of_append map_add_def
      map_of_filter_other unexpired_def)

lemma put_nowait_full:
  "0 < queue_size cfg \<Longrightarrow> queue_size cfg \<le> int (length q) \<Longrightarrow> put_nowait cfg q item = Inl Full"
  by (simp add: put_nowait_def)








text \<open>
  C3 fails on the code: the fingerprint is taken of the text framed with the wall-clock
  time to the second, so the same message sent again one second later, well within the
  TTL of 300 seconds, has another fingerprint and is queued a second time.
\<close>

theorem duplicate_one_second_later_is_queued:
  "timer_contains one_second_later
     < timer_setitem noon + of_int (deduplication_ttl demo_config) \<and>
   send_twice demo_config noon one_second_later ''hello'' (init_state demo_config)
     = Inr ((init_state demo_config)
         \<lparr>recent_messages :=
            \<lparr>cache_ttl = 300,
             entries =
               [(sha256_hexdigest demo_config
                   (wrapped_message demo_config (gmtime noon) ''hello''), 0),
                (sha256_hexdigest demo_config
                   (wrapped_message demo_config (gmtime one_second_later) ''hello''), 1)]\<rparr>,
          message_queue :=
            [(''sendMessage'',
              text_payload demo_config ''Markdown''
                (wrapped_message demo_config (gmtime noon) ''hello''), None),
             (''sendMessage'',
              text_payload demo_config ''Markdown''
                (wrapped_message demo_config (gmtime one_second_later) ''hello''), None)],
          log := [Info_message_queued, Info_message_queued]\<rparr>)"
  by (simp add: send_twice_def send_message_def Let_def put_nowait_def init_state_def
      cache_contains_def cache_setitem_def cache_expire_def unexpired_def dedup_maxsize_def
      noon_def one_second_later_def demo_config_def strip_def is_space_def
      wrapped_message_def get_formatted_title_def get_formatted_time_def strftime_def
      two_digits_def digit_def newline_def)

text \<open>
  What holds of a repeated message: sent again with the same framed text (the wall clock
  reads the same second) before the TTL of the first store has passed, it is suppressed.
\<close>

theorem same_text_within_ttl_is_suppressed:
  assumes "strip message \<noteq> []"
    and "\<not> cache_contains (recent_messages s) (timer_contains clk)
           (sha256_hexdigest cfg (wrapped_message cfg (gmtime clk) message))"
    and "gmtime clk' = gmtime clk"
    and "timer_contains clk' < timer_setitem clk + of_int (cache_ttl (recent_messages s))"
  shows "\<exists>s1. send_message cfg clk message parse_mode False s = Inr s1 \<and>
    message_queue s1 =
      (if 0 < queue_size cfg \<and> queue_size cfg \<le> int (length (message_queue s))
       then message_queue s
       else message_queue s @
         [(''sendMessage'',
           text_payload cfg parse_mode (wrapped_message cfg (gmtime clk) message), None)]) \<and>
    send_message cfg clk' message parse_mode' False s1
      = Inr (s1\<lparr>log := log s1 @ [Info_skipping_duplicate]\<rparr>)"
  using assms
  by (simp add: send_message_def Let_def put_nowait_def cache_contains_setitem)

theorem same_text_within_ttl_is_suppressed_witness:
  "\<exists>s1. send_message demo_config noon ''hello'' ''Markdown'' False (init_state demo_config)
       = Inr s1 \<and>
     length (message_queue s1) = 1 \<and>
     send_message demo_config (noon\<lparr>timer_contains := 299\<rparr>) ''hello'' ''Markdown'' False s1
       = Inr (s1\<lparr>log := log s1 @ [Info_skipping_duplicate]\<rparr>)"
proof -
  have c: "strip ''hello'' \<noteq> []" by (simp add: strip_def is_space_def)
  have d: "\<not> cache_contains (recent_messages (init_state demo_config)) (timer_contains noon)
     (sha256_hexdigest demo_config (wrapped_message demo_config (gmtime noon) ''hello''))"
    by (simp add: init_state_def cache_contains_def)
  have g: "gmtime (noon\<lparr>timer_contains := 299\<rparr>) = gmtime noon" by simp
  have e: "timer_contains (noon\<lparr>timer_contains := 299\<rparr>)
      < timer_setitem noon + of_int (cache_ttl (recent_messages (init_state demo_config)))"
    by (simp add: init_state_def demo_config_def noon_def)
  have room: "\<not> (0 < queue_size demo_config \<and>
      queue_size demo_config \<le> int (length (message_queue (init_state demo_config))))"
    by (simp add: init_state_def demo_config_def)
  from same_text_within_ttl_is_suppressed [OF c d g e, of "''Markdown''" "''Markdown''"]
  obtain s1 where
    "send_message demo_config noon ''hello'' ''Markdown'' False (init_state demo_config) = Inr s1"
    "message_queue s1 = message_queue (init_state demo_config) @
         [(''sendMessage'',
           text_payload demo_config ''Markdown''
             (wrapped_message demo_config (gmtime noon) ''hello''), None)]"
    "send_message demo_config (noon\<lparr>timer_contains := 299\<rparr>) ''hello'' ''Markdown'' False s1
      = Inr (s1\<lparr>log := log s1 @ [Info_skipping_duplicate]\<rparr>)"
    using room by auto
  then show ?thesis by (auto simp: init_state_def)
qed

section \<open>Properties of the dispatch loop\<close>

lemma collect_empty: "collect n [] batch collected = Window_closed [] collected batch"
  by (induction n) simp_all

lemma collect_window:
  "list_all well_formed (take n q) \<Longrightarrow>
   collect n q batch collected =
     Window_closed (drop n q) (collected @ collected_texts (take n q))
       (batch @ other_tasks (take n q))"
proof (induction n q batch collected rule: collect.induct)
  case (1 q batch collected)
  then show ?case by (simp add: collected_texts_def other_tasks_def map_filter_simps)
next
  case (2 n batch collected)
  then show ?case by (simp add: collected_texts_def other_tasks_def map_filter_simps)
next
  case (3 n endpoint payload fs q batch collected)
  show ?case
  proof (cases "endpoint = ''sendMessage''")
    case True
    from 3(3) have wf: "well_formed (endpoint, payload, fs)"
      and rest: "list_all well_formed (take n q)" by simp_all
    from wf True obtain v where v: "map_of payload ''text'' = Some v"
      by (auto simp: well_formed_def)
    from True have ns: "endpoint \<noteq> ''STOP''" by simp
    from 3(1) [OF ns True v rest] True v ns show ?thesis
      by (simp add: collected_texts_def other_tasks_def map_filter_simps)
  next
    case False
    from 3(3) have wf: "well_formed (endpoint, payload, fs)"
      and rest: "list_all well_formed (take n q)" by simp_all
    from wf False have ns: "endpoint \<noteq> ''STOP''" by (simp add: well_formed_def)
    from 3(2) [OF ns False rest] False ns show ?thesis
      by (simp add: collected_texts_def other_tasks_def map_filter_simps)
  qed
qed

lemma requests_dispatch: "requests (dispatch cfg ws n batch s) = requests s @ batch"
  by (induction cfg ws n batch s rule: dispatch.induct)
     (simp_all add: Let_def split: sum.splits option.splits)

lemma requests_retry_loop:
  "retry_loop cfg ws n l s rem = Inr (s', rem') \<Longrightarrow> \<exists>more. requests s' = requests s @ more"
proof (induction cfg ws n l s rem rule: retry_loop.induct)
  case (1 cfg ws n s remaining_failed)
  then show ?case by simp
next
  case (2 cfg ws n endpoint payload rest s remaining_failed)
  then show ?case by simp
next
  case (3 cfg ws n endpoint payload fs rest s remaining_failed)
  then show ?case
    by (fastforce simp: Let_def split: sum.splits option.splits)
qed

lemma requests_retry:
  "\<exists>more. requests (case retry_failed_messages cfg ws s of Inl (e, s') \<Rightarrow> s' | Inr s' \<Rightarrow> s')
     = requests s @ more"
proof (cases "failed_messages s = []")
  case True
  then show ?thesis by (simp add: retry_failed_messages_def)
next
  case False
  show ?thesis
  proof (cases "retry_loop cfg ws 0 (failed_messages s) (s\<lparr>log := log s @ [Info_retrying_failed]\<rparr>) []")
    case (Inl e)
    with False show ?thesis by (simp add: retry_failed_messages_def)
  next
    case (Inr p)
    obtain s2 rem where p: "p = (s2, rem)" by (cases p)
    from requests_retry_loop [OF Inr [unfolded p]] obtain more
      where "requests s2 = requests s @ more" by auto
    with False Inr p show ?thesis by (simp add: retry_failed_messages_def)
  qed
qed

lemma strings_of_length: "strings_of vs = Inr xs \<Longrightarrow> length xs = length vs"
  by (induction vs arbitrary: xs rule: strings_of.induct) (auto split: sum.splits)

lemma send_request_accepting: "result (send_request demo_config accepting_wire t) = Inr (Some 200)"
  by (simp add: send_request_def demo_config_def accepting_wire_def upt_conv_Cons)

lemma send_request_refusing: "result (send_request demo_config refusing_wire t) = Inr None"
  by (simp add: send_request_def demo_config_def refusing_wire_def upt_conv_Cons sleep_time_def
      Let_def)

text \<open>
  C4, as amended: in every dispatch cycle whose batch window closes over well-formed
  tasks and that collected at least one plain-text task, the merging step adds exactly one
  text task to the batch; its text is the concatenation of the collected texts in arrival
  order, separated by a blank line (two newline characters), and it is submitted in that
  cycle, after the other tasks of the batch. Three text messages enqueued inside one
  batch window give one submission with the three texts joined so.
\<close>

theorem merging_joins_with_blank_lines:
  assumes "0 < batch_interval cfg"
    and "list_all well_formed (take (polls env) (message_queue s))"
    and "strings_of (collected_texts (take (polls env) (message_queue s))) = Inr xs"
    and "xs \<noteq> []"
  shows "collect (polls env) (message_queue s) [] []
      = Window_closed (drop (polls env) (message_queue s))
          (collected_texts (take (polls env) (message_queue s)))
          (other_tasks (take (polls env) (message_queue s))) \<and>
    merge_collected cfg (collected_texts (take (polls env) (message_queue s)))
        (other_tasks (take (polls env) (message_queue s)))
      = Inr (other_tasks (take (polls env) (message_queue s))
               @ [merged_task cfg (join separator xs)]) \<and>
    filter (\<lambda>t. fst t = ''sendMessage'')
        (other_tasks (take (polls env) (message_queue s)) @ [merged_task cfg (join separator xs)])
      = [merged_task cfg (join separator xs)] \<and>
    (\<exists>s' more. cycle cfg env s = Continue s' \<and>
       requests s' = requests s @ other_tasks (take (polls env) (message_queue s))
                       @ [merged_task cfg (join separator xs)] @ more)"
proof -
  define taken where "taken = take (polls env) (message_queue s)"
  define batch where "batch = other_tasks taken @ [merged_task cfg (join separator xs)]"
  have c: "collect (polls env) (message_queue s) [] []
      = Window_closed (drop (polls env) (message_queue s)) (collected_texts taken)
          (other_tasks taken)"
    using collect_window [OF assms(2), of "[]" "[]"] by (simp add: taken_def)
  from strings_of_length [OF assms(3)] assms(4) have ne: "collected_texts taken \<noteq> []"
    by (auto simp: taken_def)
  have m: "merge_collected cfg (collected_texts taken) (other_tasks taken) = Inr batch"
    using ne assms(3) by (simp add: merge_collected_def taken_def batch_def)
  have f: "filter (\<lambda>t. fst t = ''sendMessage'') batch = [merged_task cfg (join separator xs)]"
    by (simp add: batch_def other_tasks_def merged_task_def)
  define s1 where "s1 = s\<lparr>message_queue := drop (polls env) (message_queue s)\<rparr>"
  define s2 where "s2 = dispatch cfg (batch_wires env) 0 batch s1"
  have r2: "requests s2 = requests s @ batch"
    by (simp add: s2_def s1_def requests_dispatch)
  from requests_retry [of cfg "retry_wires env" s2] obtain more where more:
    "requests (case retry_failed_messages cfg (retry_wires env) s2 of
        Inl (e, s') \<Rightarrow> s' | Inr s' \<Rightarrow> s') = requests s2 @ more"
    by blast
  have "\<exists>s'. cycle cfg env s = Continue s' \<and> requests s' = requests s @ batch @ more"
    using assms(1) c m more r2
    by (auto simp: cycle_def Let_def s1_def s2_def split: sum.splits prod.splits)
  then have k: "\<exists>s' more. cycle cfg env s = Continue s' \<and> requests s' = requests s @ batch @ more"
    by blast
  from c m f k show ?thesis unfolding taken_def batch_def by simp
qed

lemma three_queued_well_formed:
  "list_all well_formed (take (polls calm_window) (message_queue three_queued))"
  by (simp add: calm_window_def three_queued_def well_formed_def queued_text_def
      text_payload_def)

lemma three_queued_texts:
  "collected_texts (take (polls calm_window) (message_queue three_queued))
     = [PStr (wrapped_message demo_config (gmtime noon) ''one''),
        PStr (wrapped_message demo_config (gmtime noon) ''two''),
        PStr (wrapped_message demo_config (gmtime noon) ''three'')]"
  by (simp add: calm_window_def three_queued_def collected_texts_def queued_text_def
      text_payload_def map_filter_simps)

lemma three_queued_others:
  "other_tasks (take (polls calm_window) (message_queue three_queued)) = []"
  by (simp add: calm_window_def three_queued_def other_tasks_def queued_text_def)

theorem merging_joins_with_blank_lines_witness:
  "\<exists>s' more. cycle demo_config calm_window three_queued = Continue s' \<and>
     requests s' =
       [merged_task demo_config
          (wrapped_message demo_config (gmtime noon) ''one'' @ newline @ newline @
           wrapped_message demo_config (gmtime noon) ''two'' @ newline @ newline @
           wrapped_message demo_config (gmtime noon) ''three'')] @ more"
proof -
  have a: "0 < batch_interval demo_config" by (simp add: demo_config_def)
  have x: "strings_of (collected_texts (take (polls calm_window) (message_queue three_queued)))
     = Inr [wrapped_message demo_config (gmtime noon) ''one'',
            wrapped_message demo_config (gmtime noon) ''two'',
            wrapped_message demo_config (gmtime noon) ''three'']"
    by (simp add: three_queued_texts)
  have n: "[wrapped_message demo_config (gmtime noon) ''one'',
            wrapped_message demo_config (gmtime noon) ''two'',
            wrapped_message demo_config (gmtime noon) ''three''] \<noteq> []"
    by simp
  have r: "requests three_queued = []" by (simp add: three_queued_def init_state_def)
  from merging_joins_with_blank_lines [OF a three_queued_well_formed x n]
  show ?thesis
    by (simp add: three_queued_others r separator_def)
qed

text \<open>
  C4 as stated fails: for three queued messages, the text the cycle submits is not the
  three texts joined by a newline.
\<close>

theorem merged_text_is_not_newline_joined:
  "cycle demo_config calm_window three_queued
     = Continue (three_queued
         \<lparr>message_queue := [],
          requests :=
            [merged_task demo_config
               (wrapped_message demo_config (gmtime noon) ''one'' @ newline @ newline @
                wrapped_message demo_config (gmtime noon) ''two'' @ newline @ newline @
                wrapped_message demo_config (gmtime noon) ''three'')]\<rparr>) \<and>
   wrapped_message demo_config (gmtime noon) ''one'' @ newline @ newline @
   wrapped_message demo_config (gmtime noon) ''two'' @ newline @ newline @
   wrapped_message demo_config (gmtime noon) ''three''
     \<noteq> newline_joined
         [wrapped_message demo_config (gmtime noon) ''one'',
          wrapped_message demo_config (gmtime noon) ''two'',
          wrapped_message demo_config (gmtime noon) ''three'']"
proof -
  have c: "collect (polls calm_window) (message_queue three_queued) [] []
     = Window_closed [] [PStr (wrapped_message demo_config (gmtime noon) ''one''),
        PStr (wrapped_message demo_config (gmtime noon) ''two''),
        PStr (wrapped_message demo_config (gmtime noon) ''three'')] []"
    using collect_window [OF three_queued_well_formed, of "[]" "[]"]
    by (simp add: three_queued_texts three_queued_others)
       (simp add: calm_window_def three_queued_def)
  have q: "message_queue three_queued
     = [queued_text ''one'', queued_text ''two'', queued_text ''three'']"
    by (simp add: three_queued_def)
  note c' = c [unfolded q]
  have b: "0 < batch_interval demo_config" by (simp add: demo_config_def)
  have w: "batch_wires calm_window = (\<lambda>n. accepting_wire)"
    by (simp add: calm_window_def)
  have one: "cycle demo_config calm_window three_queued
     = Continue (three_queued
         \<lparr>message_queue := [],
          requests :=
            [merged_task demo_config
               (wrapped_message demo_config (gmtime noon) ''one'' @ newline @ newline @
                wrapped_message demo_config (gmtime noon) ''two'' @ newline @ newline @
                wrapped_message demo_config (gmtime noon) ''three'')]\<rparr>)"
    by (simp add: cycle_def b c' w merge_collected_def separator_def merged_task_def Let_def
        send_request_accepting retry_failed_messages_def three_queued_def init_state_def)
  have two: "wrapped_message demo_config (gmtime noon) ''one'' @ newline @ newline @
   wrapped_message demo_config (gmtime noon) ''two'' @ newline @ newline @
   wrapped_message demo_config (gmtime noon) ''three''
     \<noteq> newline_joined
         [wrapped_message demo_config (gmtime noon) ''one'',
          wrapped_message demo_config (gmtime noon) ''two'',
          wrapped_message demo_config (gmtime noon) ''three'']"
    by (simp add: newline_joined_def)
       (simp add: wrapped_message_def get_formatted_title_def demo_config_def newline_def)
  from one two show ?thesis by simp
qed

text \<open>
  C1 fails on the code: a task whose submission failed is held in the ledger as the pair
  \<open>(endpoint, payload)\<close>; in that cycle and in the two cycles after it the retry step
  raises \<open>ValueError\<close> at the loop header, the cycle logs it, and the task is never
  submitted again (the only request is the one of the dispatch step) nor removed, although
  the network accepts every request by then.
\<close>

theorem ledger_entry_is_never_resubmitted:
  "process_queue demo_config [stormy_window, calm_window, calm_window] one_queued
     = Running (one_queued
         \<lparr>message_queue := [],
          failed_messages :=
            [Tuple2 ''sendMessage''
               [(''chat_id'', PStr ''42''),
                (''text'', PStr (wrapped_message demo_config (gmtime noon) ''one''))]],
          requests :=
            [(''sendMessage'',
              [(''chat_id'', PStr ''42''),
               (''text'', PStr (wrapped_message demo_config (gmtime noon) ''one''))],
              None)],
          log :=
            [Info_retrying_failed, Error_processing_messages ValueError,
             Info_retrying_failed, Error_processing_messages ValueError,
             Info_retrying_failed, Error_processing_messages ValueError]\<rparr>)"
proof -
  have c: "collect 30 [queued_text ''one''] [] []
     = Window_closed [] [PStr (wrapped_message demo_config (gmtime noon) ''one'')] []"
    using collect_window [of 30 "[queued_text ''one'']" "[]" "[]"]
    by (simp add: well_formed_def queued_text_def text_payload_def collected_texts_def
        other_tasks_def map_filter_simps)
  show ?thesis
    by (simp add: cycle_def c collect_empty stormy_window_def calm_window_def one_queued_def
        init_state_def merge_collected_def merged_task_def Let_def send_request_refusing
        retry_failed_messages_def other_threads_def set_stop_event_def)
       (simp add: demo_config_def)
qed

lemma retry_raises_on_pair:
  "retry_failed_messages cfg ws (s\<lparr>failed_messages := Tuple2 endpoint payload # rest\<rparr>)
     = Inl (ValueError,
            s\<lparr>failed_messages := Tuple2 endpoint payload # rest,
              log := log s @ [Info_retrying_failed]\<rparr>)"
  by (simp add: retry_failed_messages_def)

text \<open>
  C8 fails on the code: five tasks are put into the queue and \<open>stop()\<close> sets the event
  while the loop is past its batch window; the loop then finds the event set and exits
  with the five tasks still queued, none of them submitted or moved to the ledger.
\<close>

theorem stop_leaves_queued_tasks_behind:
  "process_queue demo_config [busy_window] (init_state demo_config)
     = Exited ((init_state demo_config)
         \<lparr>message_queue :=
            [queued_text ''1'', queued_text ''2'', queued_text ''3'', queued_text ''4'',
             queued_text ''5''],
          stop_event := True\<rparr>) \<and>
   requests (init_state demo_config) = [] \<and> failed_messages (init_state demo_config) = []"
  by (simp add: cycle_def collect_empty busy_window_def calm_window_def init_state_def
      merge_collected_def Let_def retry_failed_messages_def other_threads_def put_nowait_def
      set_stop_event_def)
     (simp add: demo_config_def)

text \<open>
  Every entry the dispatch step appends is a pair, so a ledger that holds pairs only (as
  the empty ledger of the initial state does) holds pairs only for ever; on such a ledger
  the retry step raises unless the ledger is empty, and the ledger only grows.
\<close>

lemma dispatch_ledger:
  "\<exists>more. failed_messages (dispatch cfg ws n batch s) = failed_messages s @ more \<and>
     list_all is_pair more"
proof (induction cfg ws n batch s rule: dispatch.induct)
  case (1 cfg ws n s)
  then show ?case by simp
next
  case (2 cfg ws n endpoint payload fs batch s)
  then show ?case
    by (cases "result (send_request cfg (ws n) (endpoint, payload, fs))")
       (fastforce simp: Let_def split: option.splits)+
qed

lemma retry_pairs:
  "list_all is_pair (failed_messages s) \<Longrightarrow>
   retry_failed_messages cfg ws s =
     (if failed_messages s = [] then Inr s
      else Inl (ValueError, s\<lparr>log := log s @ [Info_retrying_failed]\<rparr>))"
proof (cases "failed_messages s")
  case Nil
  then show ?thesis by (simp add: retry_failed_messages_def)
next
  case (Cons e rest)
  assume "list_all is_pair (failed_messages s)"
  with Cons obtain endpoint payload where "e = Tuple2 endpoint payload"
    by (cases e) simp_all
  with Cons show ?thesis by (simp add: retry_failed_messages_def)
qed

lemma cycle_ledger:
  assumes "list_all is_pair (failed_messages s)"
  shows "\<exists>more. failed_messages (cycle_state (cycle cfg env s)) = failed_messages s @ more \<and>
     list_all is_pair more"
proof (cases "collect (if 0 < batch_interval cfg then polls env else 0) (message_queue s) [] []")
  case (Window_closed q collected batch)
  show ?thesis
  proof (cases "merge_collected cfg collected batch")
    case (Inl e)
    with Window_closed show ?thesis by (simp add: cycle_def)
  next
    case (Inr batch')
    define s2 where "s2 = dispatch cfg (batch_wires env) 0 batch' (s\<lparr>message_queue := q\<rparr>)"
    from dispatch_ledger [of cfg "batch_wires env" 0 batch' "s\<lparr>message_queue := q\<rparr>"]
    obtain more where more: "failed_messages s2 = failed_messages s @ more" "list_all is_pair more"
      by (auto simp: s2_def)
    with assms have "list_all is_pair (failed_messages s2)" by simp
    from retry_pairs [OF this, of cfg "retry_wires env"] Window_closed Inr more
    show ?thesis by (auto simp: cycle_def Let_def s2_def)
  qed
next
  case (Stop_item q)
  then show ?thesis by (simp add: cycle_def)
next
  case (Drain_raised e q)
  then show ?thesis by (simp add: cycle_def)
qed

lemma other_threads_ledger: "failed_messages (other_threads cfg env s) = failed_messages s"
  by (simp add: other_threads_def set_stop_event_def Let_def)

theorem ledger_only_grows:
  "list_all is_pair (failed_messages s) \<Longrightarrow>
   \<exists>more. failed_messages (loop_state (process_queue cfg envs s)) = failed_messages s @ more \<and>
     list_all is_pair more"
proof (induction envs arbitrary: s)
  case Nil
  then show ?case by simp
next
  case (Cons env envs)
  show ?case
  proof (cases "stop_event s")
    case True
    then show ?thesis by simp
  next
    case False
    from cycle_ledger [OF Cons.prems, of cfg env] obtain more
      where more: "failed_messages (cycle_state (cycle cfg env s)) = failed_messages s @ more"
        "list_all is_pair more" by blast
    show ?thesis
    proof (cases "cycle cfg env s")
      case (Return s')
      with False more show ?thesis by simp
    next
      case (Continue s')
      with more Cons.prems have "list_all is_pair (failed_messages (other_threads cfg env s'))"
        by (simp add: other_threads_ledger)
      from Cons.IH [OF this] obtain more'
        where "failed_messages (loop_state (process_queue cfg envs (other_threads cfg env s')))
          = failed_messages (other_threads cfg env s') @ more'" "list_all is_pair more'"
        by blast
      with Continue False more show ?thesis by (simp add: other_threads_ledger)
    qed
  qed
qed

text \<open>
  On a ledger of 3-tuples, as \<open>remaining_failed\<close> holds them, the retry step submits every
  entry exactly once, in order, drops the entries whose submission is accepted and keeps
  the others.
\<close>

lemma retry_loop_triples:
  "list_all (\<lambda>e. \<not> is_pair e) held \<Longrightarrow>
   \<exists>s'. retry_loop cfg ws n held s remaining
          = Inr (s', remaining @ still_failing cfg ws n held) \<and>
        requests s' = requests s @ map task_of held \<and>
        message_queue s' = message_queue s \<and> recent_messages s' = recent_messages s \<and>
        stop_event s' = stop_event s"
proof (induction held arbitrary: n s remaining)
  case Nil
  then show ?case by (simp add: still_failing_def)
next
  case (Cons e held)
  then obtain endpoint payload fs where e: "e = Tuple3 endpoint payload fs"
    by (cases e) simp_all
  from Cons.prems have rest: "list_all (\<lambda>e. \<not> is_pair e) held" by simp
  show ?case
  proof (cases "result (send_request cfg (ws n) (endpoint, payload, fs))")
    case (Inl err)
    from Cons.IH [OF rest, of "Suc n"
        "s\<lparr>requests := requests s @ [(endpoint, payload, fs)],
           log := log s @ [Error_retry_failed]\<rparr>"
        "remaining @ [Tuple3 endpoint payload fs]"]
    show ?thesis using Inl e
      by (auto simp: Let_def still_failing_def accepted_def)
  next
    case (Inr r)
    show ?thesis
    proof (cases r)
      case None
      from Cons.IH [OF rest, of "Suc n" "s\<lparr>requests := requests s @ [(endpoint, payload, fs)]\<rparr>"
          "remaining @ [Tuple3 endpoint payload fs]"]
      show ?thesis using Inr None e
        by (auto simp: Let_def still_failing_def accepted_def)
    next
      case (Some response)
      from Cons.IH [OF rest, of "Suc n" "s\<lparr>requests := requests s @ [(endpoint, payload, fs)]\<rparr>"
          remaining]
      show ?thesis using Inr Some e
        by (auto simp: Let_def still_failing_def accepted_def)
    qed
  qed
qed

theorem retry_of_triples:
  assumes "list_all (\<lambda>e. \<not> is_pair e) (failed_messages s)"
  shows "\<exists>s'. retry_failed_messages cfg ws s = Inr s' \<and>
    requests s' = requests s @ map task_of (failed_messages s) \<and>
    failed_messages s' = still_failing cfg ws 0 (failed_messages s) \<and>
    message_queue s' = message_queue s"
proof (cases "failed_messages s = []")
  case True
  then show ?thesis by (simp add: retry_failed_messages_def still_failing_def)
next
  case False
  from retry_loop_triples [OF assms, of cfg ws 0 "s\<lparr>log := log s @ [Info_retrying_failed]\<rparr>" "[]"]
  show ?thesis using False by (auto simp: retry_failed_messages_def)
qed

theorem retry_of_triples_witness:
  "\<exists>s'. retry_failed_messages demo_config
           (\<lambda>n. if n = 0 then accepting_wire else refusing_wire)
           ((init_state demo_config)
              \<lparr>failed_messages :=
                 [Tuple3 ''sendLocation'' [(''chat_id'', PStr ''42'')] None,
                  Tuple3 ''sendContact'' [(''chat_id'', PStr ''42'')] None]\<rparr>) = Inr s' \<and>
     requests s' =
       [(''sendLocation'', [(''chat_id'', PStr ''42'')], None),
        (''sendContact'', [(''chat_id'', PStr ''42'')], None)] \<and>
     failed_messages s' = [Tuple3 ''sendContact'' [(''chat_id'', PStr ''42'')] None]"
proof -
  have a: "list_all (\<lambda>e. \<not> is_pair e)
     (failed_messages ((init_state demo_config)
              \<lparr>failed_messages :=
                 [Tuple3 ''sendLocation'' [(''chat_id'', PStr ''42'')] None,
                  Tuple3 ''sendContact'' [(''chat_id'', PStr ''42'')] None]\<rparr>))"
    by simp
  from retry_of_triples [OF a, of demo_config "\<lambda>n. if n = 0 then accepting_wire else refusing_wire"]
  show ?thesis
    by (simp add: still_failing_def accepted_def enumerate_simps send_request_accepting
        send_request_refusing init_state_def) blast
qed

theorem ledger_only_grows_witness:
  "\<exists>more. failed_messages
       (loop_state (process_queue demo_config [stormy_window, calm_window] one_queued))
     = failed_messages one_queued @ more \<and> list_all is_pair more"
proof -
  have "list_all is_pair (failed_messages one_queued)"
    by (simp add: one_queued_def init_state_def)
  from ledger_only_grows [OF this] show ?thesis .
qed

text \<open>
  A loop that finds the stop event set returns at once and leaves the state, its queue
  included, as it is.
\<close>

theorem stopped_loop_exits_at_once:
  "stop_event s \<Longrightarrow>
     process_queue cfg envs s = Exited s \<and> loop_state (process_queue cfg envs s) = s"
  by (cases envs) simp_all

theorem stopped_loop_exits_at_once_witness:
  "process_queue demo_config [calm_window] (three_queued\<lparr>stop_event := True\<rparr>)
     = Exited (three_queued\<lparr>stop_event := True\<rparr>)"
proof -
  have "stop_event (three_queued\<lparr>stop_event := True\<rparr>)" by simp
  from stopped_loop_exits_at_once [OF this, of demo_config "[calm_window]"]
  show ?thesis by simp
qed

text \<open>
  The wait of \<open>stop()\<close> ends exactly on an empty queue; on the queue the loop left behind
  above it never ends.
\<close>

lemma await_empty_queue_some:
  assumes "await_empty_queue s = Some s'"
  shows "message_queue s = []"
  by (induct rule: await_empty_queue.raw_induct [OF _ assms]) (simp split: if_splits)

lemma await_empty_queue_ends: "message_queue s = [] \<Longrightarrow> await_empty_queue s = Some s"
  by (simp add: await_empty_queue.simps)

lemma await_empty_queue_hangs: "message_queue s \<noteq> [] \<Longrightarrow> await_empty_queue s = None"
  using await_empty_queue_some [of s] by (cases "await_empty_queue s") auto

lemma stop_hangs_after_early_exit:
  "await_empty_queue (loop_state (process_queue demo_config [busy_window] (init_state demo_config)))
     = None"
  by (rule await_empty_queue_hangs)
     (simp add: cycle_def collect_empty busy_window_def calm_window_def init_state_def
        merge_collected_def Let_def retry_failed_messages_def other_threads_def put_nowait_def
        set_stop_event_def demo_config_def)

end
